theory Spec2Isabelle
  imports Complex_Main
begin

section \<open>JavaScript values used by the client\<close>

text \<open>
  A JavaScript string is a sequence of UTF-16 code units. The code units are natural
  numbers here; \<open>js\<close> turns an ASCII literal into such a string. A JavaScript number is
  a real: the code below stores and compares time stamps and never calculates with them,
  and \<open>Date.now()\<close> is a natural number of milliseconds handed to each operation.
\<close>

type_synonym jsstring = "nat list"
type_synonym number = real

definition js :: "string \<Rightarrow> jsstring" where
  "js s = map of_char s"

text \<open>
  \<open>String.prototype.trim\<close>, \<open>trimStart\<close> and \<open>trimEnd\<close> remove the ECMAScript
  white space and line terminator code units: TAB, LF, VT, FF, CR, SP, NBSP, U+1680,
  U+2000..U+200A, U+2028, U+2029, U+202F, U+205F, U+3000 and U+FEFF.
\<close>

definition isWhiteSpace :: "nat \<Rightarrow> bool" where
  "isWhiteSpace c =
     (c = 9 \<or> c = 10 \<or> c = 11 \<or> c = 12 \<or> c = 13 \<or> c = 32 \<or> c = 160 \<or> c = 5760
      \<or> (8192 \<le> c \<and> c \<le> 8202) \<or> c = 8232 \<or> c = 8233 \<or> c = 8239 \<or> c = 8287
      \<or> c = 12288 \<or> c = 65279)"

definition trimStart :: "jsstring \<Rightarrow> jsstring" where
  "trimStart s = dropWhile isWhiteSpace s"

definition trimEnd :: "jsstring \<Rightarrow> jsstring" where
  "trimEnd s = rev (dropWhile isWhiteSpace (rev s))"

definition trim :: "jsstring \<Rightarrow> jsstring" where
  "trim s = trimEnd (trimStart s)"

section \<open>The data model of \<open>types/procurement\<close>\<close>

datatype SimulationState = Idle | Uploading | Thinking | Verdict | Generating | Complete

datatype ThinkingLogStatus = StatusPending | StatusActive | StatusComplete

text \<open>
  The interfaces \<open>ThinkingLog\<close>, \<open>Message\<close> and \<open>ChatMessage\<close> all have fields
  \<open>id\<close> and \<open>timestamp\<close>; the record fields carry a prefix to keep them apart
  (\<open>log_id\<close> is \<open>ThinkingLog.id\<close>, \<open>msg_id\<close> is \<open>Message.id\<close>,
  \<open>chat_id\<close> is \<open>ChatMessage.id\<close>, and so on).
\<close>

record ThinkingLog =
  log_id :: jsstring
  agent :: jsstring
  message :: jsstring
  log_timestamp :: number
  status :: ThinkingLogStatus

datatype FindingSeverity = High | Medium | Low

record Finding =
  category :: jsstring
  items :: "jsstring list"
  severity :: FindingSeverity

datatype VerdictStatus = PASS | FAIL

record VerdictData =
  verdict_status :: VerdictStatus
  title :: jsstring
  findings :: "Finding list"
  confidence :: number

datatype MessageType = TypeUser | TypeAi | TypeThinking | TypeVerdict

record Message =
  msg_id :: jsstring
  msg_type :: MessageType
  msg_content :: "jsstring option"
  fileName :: "jsstring option"
  msg_timestamp :: number

datatype Role = User | Assistant

record ChatMessage =
  chat_id :: jsstring
  role :: Role
  content :: jsstring
  timestamp :: number

section \<open>The state of the hook \<open>useProcurementAnalysis\<close>\<close>

text \<open>
  One record holds the eleven \<open>useState\<close> cells and the four \<open>useRef\<close> cells of the
  hook. \<open>eventSourceRef\<close> holds the thread id the open \<open>EventSource\<close> was created for,
  \<open>chatAbortControllerRef\<close> holds \<open>Some ()\<close> while an \<open>AbortController\<close> is stored.
  State setters are applied in the order the code calls them; a functional updater
  \<open>setX(prev => ...)\<close> is applied to the value the earlier setters left.
\<close>

record HookState =
  state :: SimulationState
  thinkingLogs :: "ThinkingLog list"
  verdictData :: "VerdictData option"
  messages :: "Message list"
  chatMessages :: "ChatMessage list"
  showSplitView :: bool
  gammaLink :: "jsstring option"
  error :: "jsstring option"
  isConnected :: bool
  isChatLoading :: bool
  isChatInFlight :: bool
  eventSourceRef :: "jsstring option"
  threadIdRef :: "jsstring option"
  chatAbortControllerRef :: "unit option"
  activeChatMessageIdRef :: "jsstring option"

text \<open>The state of a freshly mounted hook.\<close>

definition initialState :: HookState where
  "initialState =
     \<lparr> state = Idle, thinkingLogs = [], verdictData = None, messages = [],
       chatMessages = [], showSplitView = False, gammaLink = None, error = None,
       isConnected = False, isChatLoading = False, isChatInFlight = False,
       eventSourceRef = None, threadIdRef = None, chatAbortControllerRef = None,
       activeChatMessageIdRef = None \<rparr>"

definition closeEventSource :: "HookState \<Rightarrow> HookState" where
  "closeEventSource s =
     (if eventSourceRef s \<noteq> None
      then s\<lparr>eventSourceRef := None, isConnected := False\<rparr>
      else s)"

text \<open>
  \<open>closeChatStream\<close> aborts the request of the turn in flight, if a controller is stored,
  and clears the active message id and both chat flags.
\<close>

definition closeChatStream :: "HookState \<Rightarrow> HookState" where
  "closeChatStream s =
     (let s1 = (if chatAbortControllerRef s \<noteq> None
                then s\<lparr>chatAbortControllerRef := None\<rparr> else s)
      in s1\<lparr>activeChatMessageIdRef := None, isChatLoading := False,
             isChatInFlight := False\<rparr>)"

definition reset :: "HookState \<Rightarrow> HookState" where
  "reset s =
     (closeChatStream (closeEventSource s))
       \<lparr>state := Idle, thinkingLogs := [], verdictData := None, messages := [],
        chatMessages := [], showSplitView := False, gammaLink := None, error := None,
        threadIdRef := None\<rparr>"

text \<open>
  \<open>!threadIdRef.current\<close> holds for \<open>null\<close> and for the empty string.
\<close>

definition noThreadId :: "HookState \<Rightarrow> bool" where
  "noThreadId s = (case threadIdRef s of None \<Rightarrow> True | Some t \<Rightarrow> t = [])"

subsection \<open>The analysis stream: \<open>onThinkingLog\<close>\<close>

text \<open>
  The handler registered by \<open>uploadFiles\<close> copies the five fields of the event
  (\<open>log\<close> in the source, \<open>ev\<close> here) and
  appends the entry unless an entry with the same id is already in the log.
\<close>

definition onThinkingLog :: "ThinkingLog \<Rightarrow> HookState \<Rightarrow> HookState" where
  "onThinkingLog ev s =
     (let thinkingLog = \<lparr> log_id = log_id ev, agent = agent ev, message = message ev,
                           log_timestamp = log_timestamp ev, status = status ev \<rparr>;
          prev = thinkingLogs s
      in if list_ex (\<lambda>l. log_id l = log_id ev) prev
         then s
         else s\<lparr>thinkingLogs := prev @ [thinkingLog]\<rparr>)"

subsection \<open>Promises\<close>

text \<open>
  What an awaited call of the transport client settles to: a value, or a thrown value
  that is an \<open>Error\<close> with a message (\<open>APIError\<close>, \<open>TypeError\<close>), or something that
  is not an \<open>Error\<close>.
\<close>

datatype Thrown = ErrorObject jsstring | NotAnError

datatype 'a Settled = Fulfilled 'a | Rejected Thrown

text \<open>\<open>err instanceof Error ? err.message : fallback\<close>\<close>

definition errorMessageOr :: "jsstring \<Rightarrow> Thrown \<Rightarrow> jsstring" where
  "errorMessageOr fallback err = (case err of ErrorObject m \<Rightarrow> m | NotAnError \<Rightarrow> fallback)"

record ReviewResponse =
  review_status :: jsstring
  gamma_link :: "jsstring option"

subsection \<open>\<open>generateReport\<close> and \<open>declineReport\<close>\<close>

text \<open>
  Each operation is split where it awaits the transport client. The first part returns
  \<open>Inl\<close> with the final state when the operation returns before any request, and
  \<open>Inr\<close> with the state in which \<open>submitReview\<close> is called; the second part takes what
  the call settles to.
\<close>

definition generateReport_begin :: "HookState \<Rightarrow> HookState + HookState" where
  "generateReport_begin s =
     (if noThreadId s
      then Inl (s\<lparr>error := Some (js ''No analysis session found'')\<rparr>)
      else Inr (s\<lparr>state := Generating, showSplitView := True\<rparr>))"

definition generateReport_settle :: "ReviewResponse Settled \<Rightarrow> HookState \<Rightarrow> HookState" where
  "generateReport_settle r s =
     (case r of
        Fulfilled response \<Rightarrow>
          (let s1 = (case gamma_link response of
                       None \<Rightarrow> s
                     | Some link \<Rightarrow> if link = [] then s else s\<lparr>gammaLink := Some link\<rparr>)
           in s1\<lparr>state := Complete\<rparr>)
      | Rejected err \<Rightarrow>
          s\<lparr>error := Some (errorMessageOr (js ''Failed to generate report'') err),
            state := Verdict\<rparr>)"

definition generateReport :: "ReviewResponse Settled \<Rightarrow> HookState \<Rightarrow> HookState" where
  "generateReport r s =
     (case generateReport_begin s of
        Inl s' \<Rightarrow> s'
      | Inr s1 \<Rightarrow> generateReport_settle r s1)"

definition declineReport_begin :: "HookState \<Rightarrow> HookState + HookState" where
  "declineReport_begin s =
     (if noThreadId s
      then Inl (s\<lparr>error := Some (js ''No analysis session found'')\<rparr>)
      else Inr s)"

definition declineReport_settle :: "ReviewResponse Settled \<Rightarrow> HookState \<Rightarrow> HookState" where
  "declineReport_settle r s =
     (case r of
        Fulfilled response \<Rightarrow> s\<lparr>state := Complete\<rparr>
      | Rejected err \<Rightarrow>
          s\<lparr>error := Some (errorMessageOr (js ''Failed to submit review'') err)\<rparr>)"

definition declineReport :: "ReviewResponse Settled \<Rightarrow> HookState \<Rightarrow> HookState" where
  "declineReport r s =
     (case declineReport_begin s of
        Inl s' \<Rightarrow> s'
      | Inr s1 \<Rightarrow> declineReport_settle r s1)"

subsection \<open>\<open>uploadFiles\<close> up to the upload request\<close>

text \<open>
  A \<open>File\<close> is its name. Decimal digits of a natural number, for the template strings.
\<close>

function decimal :: "nat \<Rightarrow> jsstring" where
  "decimal n = (if n < 10 then [48 + n] else decimal (n div 10) @ [48 + n mod 10])"
  by pat_completeness auto
termination
  by (relation "measure (\<lambda>n. n)") auto

declare decimal.simps [simp del]

definition uploadFiles_begin :: "jsstring list \<Rightarrow> nat \<Rightarrow> HookState \<Rightarrow> HookState + HookState" where
  "uploadFiles_begin files now s =
     (let s1 = s\<lparr>error := None\<rparr>
      in case files of
           [] \<Rightarrow> Inl (s1\<lparr>error := Some (js ''No PDF files selected'')\<rparr>)
         | firstFile # others \<Rightarrow>
             (let hasMore = (1 < length files);
                  userMessage =
                    \<lparr> msg_id = js ''msg-'' @ decimal now @ js ''-user'',
                      msg_type = TypeUser,
                      msg_content = Some
                        (if hasMore
                         then js ''Please analyze these procurement documents ('' @
                              decimal (length files) @ js '' files)''
                         else js ''Please analyze this procurement document''),
                      fileName = Some
                        (if hasMore
                         then firstFile @ js '' +'' @ decimal (length files - 1) @ js '' more''
                         else firstFile),
                      msg_timestamp = of_nat now \<rparr>
              in Inr (s1\<lparr>messages := [userMessage], state := Uploading\<rparr>)))"

section \<open>The chat turn: \<open>sendChatMessage\<close>\<close>

text \<open>
  The callbacks \<open>sendChatMessage\<close> hands to \<open>apiClient.sendChatMessageStream\<close>. Each
  works on the state of the hook and on the local variable \<open>streamFinished\<close> of the turn;
  \<open>onDelta\<close> also reads the clock.
\<close>

definition onStart :: "jsstring \<Rightarrow> number \<Rightarrow> HookState \<times> bool \<Rightarrow> HookState \<times> bool" where
  "onStart message_id ts = (\<lambda>(s, streamFinished).
     (s\<lparr>activeChatMessageIdRef := Some message_id\<rparr>, streamFinished))"

definition onDelta :: "jsstring \<Rightarrow> jsstring \<Rightarrow> nat \<Rightarrow> HookState \<times> bool \<Rightarrow> HookState \<times> bool" where
  "onDelta message_id delta now = (\<lambda>(s, streamFinished).
     if activeChatMessageIdRef s \<noteq> Some message_id then (s, streamFinished)
     else
       (let prev = chatMessages s;
            messageExists = list_ex (\<lambda>chatMessage. chat_id chatMessage = message_id) prev
        in if \<not> messageExists
           then (if trim delta = [] then (s, streamFinished)
                 else (s\<lparr>isChatLoading := False,
                         chatMessages := prev @
                           [\<lparr> chat_id = message_id, role = Assistant, content = delta,
                              timestamp = of_nat now \<rparr>]\<rparr>, streamFinished))
           else (s\<lparr>isChatLoading := False,
                   chatMessages :=
                     map (\<lambda>chatMessage.
                            if chat_id chatMessage = message_id
                            then chatMessage\<lparr>content := content chatMessage @ delta\<rparr>
                            else chatMessage) prev\<rparr>, streamFinished)))"

definition onComplete :: "jsstring \<Rightarrow> jsstring \<Rightarrow> number \<Rightarrow> HookState \<times> bool \<Rightarrow> HookState \<times> bool" where
  "onComplete message_id response ts = (\<lambda>(s, streamFinished).
     if activeChatMessageIdRef s \<noteq> Some message_id then (s, streamFinished)
     else
       (let prev = chatMessages s;
            messageExists = list_ex (\<lambda>chatMessage. chat_id chatMessage = message_id) prev;
            updated = (if \<not> messageExists
                    then prev @ [\<lparr> chat_id = message_id, role = Assistant,
                                    content = response, timestamp = ts \<rparr>]
                    else map (\<lambda>chatMessage.
                                if chat_id chatMessage = message_id
                                then chatMessage\<lparr>content := response, timestamp := ts\<rparr>
                                else chatMessage) prev)
        in (s\<lparr>chatMessages := updated, activeChatMessageIdRef := None,
               isChatLoading := False, isChatInFlight := False\<rparr>, True)))"

definition onError :: "jsstring \<Rightarrow> HookState \<times> bool \<Rightarrow> HookState \<times> bool" where
  "onError errorMsg = (\<lambda>(s, streamFinished).
     (s\<lparr>error := Some errorMsg, activeChatMessageIdRef := None,
        isChatLoading := False, isChatInFlight := False\<rparr>, True))"

text \<open>
  What the stream does during one turn, as \<open>sendChatMessageStream\<close> shows it to the
  hook: first a sequence of \<open>chat_start\<close>, \<open>chat_delta\<close> and \<open>chat_complete\<close> frames,
  each with the clock reading at its dispatch; then the promise settles. The decoder
  calls \<open>onError\<close> in two places only, each followed at once by
  \<open>throw new APIError\<close> with the same message, so an error callback is a way of
  settling (\<open>ErrorEvent\<close>). Without an error callback the promise resolves, or rejects
  with a thrown value, or rejects with the \<open>AbortError\<close> of the turn's
  \<open>AbortController\<close>. Only \<open>closeChatStream\<close> aborts the controller, and it is called
  by \<open>reset\<close> and by the clean-up of the effect on unmount, so an abort carries which
  of the two ran.
\<close>

datatype ChatCallback =
    ChatStart jsstring number
  | ChatDelta jsstring jsstring
  | ChatComplete jsstring jsstring number

datatype Canceller = ByReset | ByUnmount

datatype StreamEnd =
    Resolves
  | ErrorEvent jsstring
  | Rejects Thrown
  | Aborted Canceller

definition dispatch :: "nat \<times> ChatCallback \<Rightarrow> HookState \<times> bool \<Rightarrow> HookState \<times> bool" where
  "dispatch = (\<lambda>(now, cb). case cb of
       ChatStart message_id ts \<Rightarrow> onStart message_id ts
     | ChatDelta message_id delta \<Rightarrow> onDelta message_id delta now
     | ChatComplete message_id response ts \<Rightarrow> onComplete message_id response ts)"

definition dispatchAll :: "(nat \<times> ChatCallback) list \<Rightarrow> HookState \<times> bool \<Rightarrow> HookState \<times> bool" where
  "dispatchAll cbs = fold dispatch cbs"

text \<open>
  The part of \<open>sendChatMessage\<close> before \<open>await\<close>: \<open>Inl\<close> when it returns at one of the
  two guards, \<open>Inr\<close> with the state in which the request is opened. The thread id
  is read from a ref, so from the state. The second guard, \<open>if (isChatInFlight)\<close>, reads
  the constant of the render that built the callback
  (\<open>useCallback(..., [isChatInFlight])\<close>): it is the argument \<open>inFlightAtRender\<close>.
  \<open>setIsChatInFlight\<close> changes the state cell and not that constant, so a callback
  built by the current render has \<open>inFlightAtRender = isChatInFlight s\<close>, and a callback
  captured before carries the value of its own render.
\<close>

definition sendChatMessage_begin ::
  "bool \<Rightarrow> jsstring \<Rightarrow> nat \<Rightarrow> HookState \<Rightarrow> HookState + HookState" where
  "sendChatMessage_begin inFlightAtRender msg now s =
     (if noThreadId s
      then Inl (s\<lparr>error := Some (js ''No analysis session found'')\<rparr>)
      else if inFlightAtRender then Inl s
      else
        (let userChatMessage =
               \<lparr> chat_id = js ''chat-'' @ decimal now @ js ''-user'', role = User,
                 content = msg, timestamp = of_nat now \<rparr>
         in Inr (s\<lparr>error := None,
                   chatMessages := chatMessages s @ [userChatMessage],
                   isChatLoading := True, isChatInFlight := True,
                   chatAbortControllerRef := Some ()\<rparr>)))"

text \<open>The statements after \<open>await\<close>, the \<open>catch\<close> block and the \<open>finally\<close> block.\<close>

definition catchBlock :: "Thrown \<Rightarrow> HookState \<Rightarrow> HookState" where
  "catchBlock err s =
     s\<lparr>error := Some (errorMessageOr (js ''Failed to send message'') err),
       isChatLoading := False, isChatInFlight := False, activeChatMessageIdRef := None\<rparr>"

definition sendChatMessage_settle :: "StreamEnd \<Rightarrow> HookState \<times> bool \<Rightarrow> HookState" where
  "sendChatMessage_settle ending = (\<lambda>(s, streamFinished).
     (case ending of
        Resolves \<Rightarrow>
          (if \<not> streamFinished
           then s\<lparr>activeChatMessageIdRef := None, isChatLoading := False,
                  isChatInFlight := False\<rparr>
           else s)
      | ErrorEvent errorMsg \<Rightarrow>
          catchBlock (ErrorObject errorMsg) (fst (onError errorMsg (s, streamFinished)))
      | Rejects err \<Rightarrow> catchBlock err s
      | Aborted ByReset \<Rightarrow> reset s
      | Aborted ByUnmount \<Rightarrow> closeChatStream (closeEventSource s))
     \<lparr>chatAbortControllerRef := None\<rparr>)"

definition sendChatMessage ::
  "bool \<Rightarrow> jsstring \<Rightarrow> nat \<Rightarrow> (nat \<times> ChatCallback) list \<Rightarrow> StreamEnd \<Rightarrow> HookState
     \<Rightarrow> HookState" where
  "sendChatMessage inFlightAtRender msg now cbs ending s =
     (case sendChatMessage_begin inFlightAtRender msg now s of
        Inl s' \<Rightarrow> s'
      | Inr s1 \<Rightarrow> sendChatMessage_settle ending (dispatchAll cbs (s1, False)))"

text \<open>
  What is observed of a turn: whether a \<open>chat_complete\<close> finalized the entry (it is the
  only callback of \<open>dispatch\<close> that sets \<open>streamFinished\<close>), and whether the user
  cancelled it.
\<close>

definition turnFinalized ::
  "bool \<Rightarrow> jsstring \<Rightarrow> nat \<Rightarrow> (nat \<times> ChatCallback) list \<Rightarrow> HookState \<Rightarrow> bool" where
  "turnFinalized inFlightAtRender msg now cbs s =
     (case sendChatMessage_begin inFlightAtRender msg now s of
        Inl s' \<Rightarrow> False
      | Inr s1 \<Rightarrow> snd (dispatchAll cbs (s1, False)))"

definition turnCancelled :: "StreamEnd \<Rightarrow> bool" where
  "turnCancelled ending = (case ending of Aborted c \<Rightarrow> True | _ \<Rightarrow> False)"

definition turnStarts :: "bool \<Rightarrow> jsstring \<Rightarrow> nat \<Rightarrow> HookState \<Rightarrow> bool" where
  "turnStarts inFlightAtRender msg now s =
     (case sendChatMessage_begin inFlightAtRender msg now s of
        Inl s' \<Rightarrow> False
      | Inr s1 \<Rightarrow> True)"

section \<open>The transport client: the decode loop of \<open>sendChatMessageStream\<close>\<close>

subsection \<open>\<open>TextDecoder\<close>\<close>

text \<open>
  \<open>new TextDecoder()\<close> is the UTF-8 decoder of the WHATWG Encoding standard in
  replacement mode. A byte is a natural number below 256. The decoder keeps the code
  point under construction, the bytes seen and needed and the bounds of the next
  continuation byte; the \<open>TextDecoder\<close> object adds the flag that a byte order mark
  has been looked for.
\<close>

record Utf8Decoder =
  codePoint :: nat
  bytesSeen :: nat
  bytesNeeded :: nat
  lowerBoundary :: nat
  upperBoundary :: nat

record TextDecoder =
  utf8 :: Utf8Decoder
  bomSeen :: bool

definition newTextDecoder :: TextDecoder where
  "newTextDecoder =
     \<lparr> utf8 = \<lparr> codePoint = 0, bytesSeen = 0, bytesNeeded = 0, lowerBoundary = 128,
                upperBoundary = 191 \<rparr>,
       bomSeen = False \<rparr>"

text \<open>
  The handler on a byte when no sequence is open (\<open>byte & 0x1F\<close> is \<open>byte mod 32\<close>,
  and so on); it returns the new state and the code points emitted, U+FFFD for an
  error.
\<close>

definition leadByte :: "nat \<Rightarrow> Utf8Decoder \<Rightarrow> Utf8Decoder \<times> nat list" where
  "leadByte byte d =
     (if byte \<le> 127 then (d, [byte])
      else if 194 \<le> byte \<and> byte \<le> 223
        then (d\<lparr>bytesNeeded := 1, codePoint := byte mod 32\<rparr>, [])
      else if 224 \<le> byte \<and> byte \<le> 239
        then (d\<lparr>lowerBoundary := (if byte = 224 then 160 else lowerBoundary d),
                upperBoundary := (if byte = 237 then 159 else upperBoundary d),
                bytesNeeded := 2, codePoint := byte mod 16\<rparr>, [])
      else if 240 \<le> byte \<and> byte \<le> 244
        then (d\<lparr>lowerBoundary := (if byte = 240 then 144 else lowerBoundary d),
                upperBoundary := (if byte = 244 then 143 else upperBoundary d),
                bytesNeeded := 3, codePoint := byte mod 8\<rparr>, [])
      else (d, [65533]))"

text \<open>
  The handler on any byte. A byte outside the bounds ends the open sequence with an
  error and is put back, that is, handled again as a first byte.
\<close>

definition handleByte :: "nat \<Rightarrow> Utf8Decoder \<Rightarrow> Utf8Decoder \<times> nat list" where
  "handleByte byte d =
     (if bytesNeeded d = 0 then leadByte byte d
      else if byte < lowerBoundary d \<or> upperBoundary d < byte
        then (case leadByte byte
                     (d\<lparr>codePoint := 0, bytesNeeded := 0, bytesSeen := 0,
                        lowerBoundary := 128, upperBoundary := 191\<rparr>) of
                (d', out) \<Rightarrow> (d', 65533 # out))
      else
        (let d1 = d\<lparr>lowerBoundary := 128, upperBoundary := 191,
                    codePoint := codePoint d * 64 + byte mod 64,
                    bytesSeen := bytesSeen d + 1\<rparr>
         in if bytesSeen d1 \<noteq> bytesNeeded d1 then (d1, [])
            else (d1\<lparr>codePoint := 0, bytesNeeded := 0, bytesSeen := 0\<rparr>, [codePoint d1])))"

fun handleBytes :: "nat list \<Rightarrow> Utf8Decoder \<Rightarrow> Utf8Decoder \<times> nat list" where
  "handleBytes [] d = (d, [])"
| "handleBytes (byte # bytes) d =
     (case handleByte byte d of (d1, out) \<Rightarrow>
        (case handleBytes bytes d1 of (d2, out') \<Rightarrow> (d2, out @ out')))"

text \<open>A code point as UTF-16 code units of the resulting string.\<close>

definition utf16 :: "nat \<Rightarrow> jsstring" where
  "utf16 cp =
     (if cp < 65536 then [cp]
      else [55296 + (cp - 65536) div 1024, 56320 + (cp - 65536) mod 1024])"

text \<open>
  Serializing the output of a call: the first code point ever produced is dropped when
  it is the byte order mark U+FEFF.
\<close>

fun serialize :: "nat list \<Rightarrow> bool \<Rightarrow> bool \<times> jsstring" where
  "serialize [] seen = (seen, [])"
| "serialize (cp # cps) seen =
     (if \<not> seen \<and> cp = 65279 then serialize cps True
      else (case serialize cps True of (seen', out) \<Rightarrow> (seen', utf16 cp @ out)))"

text \<open>\<open>decoder.decode(value, { stream: true })\<close>\<close>

definition decode :: "nat list \<Rightarrow> TextDecoder \<Rightarrow> TextDecoder \<times> jsstring" where
  "decode val d =
     (case handleBytes val (utf8 d) of (u, cps) \<Rightarrow>
        (case serialize cps (bomSeen d) of (seen, out) \<Rightarrow>
           (\<lparr> utf8 = u, bomSeen = seen \<rparr>, out)))"

text \<open>
  \<open>decoder.decode()\<close> at the end of the stream: an open sequence gives one U+FFFD.
\<close>

definition decodeEnd :: "TextDecoder \<Rightarrow> jsstring" where
  "decodeEnd d =
     snd (serialize (if bytesNeeded (utf8 d) \<noteq> 0 then [65533] else []) (bomSeen d))"

subsection \<open>Parsed payloads\<close>

text \<open>
  A value \<open>JSON.parse\<close> returns; an object is the list of its properties.
  \<open>JSON.parse\<close> itself is a parameter \<open>parse\<close> of the decode loop, \<open>None\<close> when it
  throws.
\<close>

datatype json =
    JNull
  | JBool bool
  | JNum real
  | JStr jsstring
  | JArr "json list"
  | JObj "(jsstring \<times> json) list"

definition truthy :: "json \<Rightarrow> bool" where
  "truthy v =
     (case v of JNull \<Rightarrow> False | JBool b \<Rightarrow> b | JNum r \<Rightarrow> r \<noteq> 0 | JStr s \<Rightarrow> s \<noteq> []
      | JArr vs \<Rightarrow> True | JObj kvs \<Rightarrow> True)"

text \<open>\<open>payload?.error || 'Stream error occurred'\<close>\<close>

definition errorOf :: "json \<Rightarrow> json" where
  "errorOf payload =
     (case payload of
        JObj kvs \<Rightarrow>
          (case map_of kvs (js ''error'') of
             Some v \<Rightarrow> if truthy v then v else JStr (js ''Stream error occurred'')
           | None \<Rightarrow> JStr (js ''Stream error occurred''))
      | _ \<Rightarrow> JStr (js ''Stream error occurred''))"

subsection \<open>\<open>processSSEEvent\<close>\<close>

datatype StreamCallback = OnStart json | OnDelta json | OnComplete json | OnError json

text \<open>\<open>rawEvent.split('\n')\<close> and \<open>dataLines.join('\n')\<close>\<close>

fun splitLines :: "jsstring \<Rightarrow> jsstring list" where
  "splitLines [] = [[]]"
| "splitLines (c # cs) =
     (if c = 10 then [] # splitLines cs
      else (case splitLines cs of [] \<Rightarrow> [[c]] | l # ls \<Rightarrow> (c # l) # ls))"

fun joinLines :: "jsstring list \<Rightarrow> jsstring" where
  "joinLines [] = []"
| "joinLines [l] = l"
| "joinLines (l # l' # ls) = l @ 10 # joinLines (l' # ls)"

definition startsWith :: "jsstring \<Rightarrow> jsstring \<Rightarrow> bool" where
  "startsWith s prefix = (take (length prefix) s = prefix)"

text \<open>One round of the loop over the lines, on \<open>eventName\<close> and \<open>dataLines\<close>.\<close>

definition processLine :: "jsstring \<Rightarrow> jsstring \<times> jsstring list \<Rightarrow> jsstring \<times> jsstring list" where
  "processLine rawLine = (\<lambda>(eventName, dataLines).
     (let line = trimEnd rawLine
      in if line = [] \<or> startsWith line (js '':'') then (eventName, dataLines)
         else if startsWith line (js ''event:'') then (trim (drop 6 line), dataLines)
         else if startsWith line (js ''data:'') then (eventName, dataLines @ [trim (drop 5 line)])
         else (eventName, dataLines)))"

text \<open>
  The result of \<open>processSSEEvent\<close> is the callbacks it calls, in order, and whether it
  throws an \<open>APIError\<close> after them.
\<close>

definition processSSEEvent ::
  "(jsstring \<Rightarrow> json option) \<Rightarrow> jsstring \<Rightarrow> StreamCallback list \<times> bool" where
  "processSSEEvent parse rawEvent =
     (case fold processLine (splitLines rawEvent) (js ''message'', []) of
        (eventName, dataLines) \<Rightarrow>
          if dataLines = [] then ([], False)
          else
            (case parse (joinLines dataLines) of
               None \<Rightarrow> ([OnError (JStr (js ''Failed to parse stream payload''))], True)
             | Some payload \<Rightarrow>
                 if eventName = js ''chat_start'' then ([OnStart payload], False)
                 else if eventName = js ''chat_delta'' then ([OnDelta payload], False)
                 else if eventName = js ''chat_complete'' then ([OnComplete payload], False)
                 else if eventName = js ''error'' then ([OnError (errorOf payload)], True)
                 else ([], False)))"

subsection \<open>The read loop\<close>

text \<open>\<open>buffer.indexOf('\n\n')\<close>, \<open>None\<close> for \<open>-1\<close>\<close>

fun indexOfBoundary :: "jsstring \<Rightarrow> nat option" where
  "indexOfBoundary (a # b # cs) =
     (if a = 10 \<and> b = 10 then Some 0 else map_option Suc (indexOfBoundary (b # cs)))"
| "indexOfBoundary cs = None"

text \<open>
  The inner \<open>while (boundaryIndex !== -1)\<close>: the callbacks called, whether a frame
  threw, and the buffer that is left.
\<close>

function processBuffer ::
  "(jsstring \<Rightarrow> json option) \<Rightarrow> jsstring \<Rightarrow> StreamCallback list \<times> bool \<times> jsstring" where
  "processBuffer parse buffer =
     (case indexOfBoundary buffer of
        None \<Rightarrow> ([], False, buffer)
      | Some boundaryIndex \<Rightarrow>
          (let rawEvent = trim (take boundaryIndex buffer);
               buffer' = drop (boundaryIndex + 2) buffer;
               frame = (if rawEvent \<noteq> [] then processSSEEvent parse rawEvent else ([], False))
           in if snd frame then (fst frame, True, buffer')
              else (case processBuffer parse buffer' of
                      (calls, threw, rest) \<Rightarrow> (fst frame @ calls, threw, rest))))"
  by pat_completeness auto
termination
proof -
  have bound: "i + 2 \<le> length buffer" if "indexOfBoundary buffer = Some i" for buffer i
    using that
    by (induction buffer arbitrary: i rule: indexOfBoundary.induct) (auto split: if_splits)
  show ?thesis
    by (relation "measure (\<lambda>(parse, buffer). length buffer)") (auto dest: bound)
qed

declare processBuffer.simps [simp del]

text \<open>
  The outer loop over the chunks \<open>reader.read()\<close> delivers, then the tail after
  \<open>done\<close>.
\<close>

fun readLoop ::
  "(jsstring \<Rightarrow> json option) \<Rightarrow> nat list list \<Rightarrow> TextDecoder \<Rightarrow> jsstring \<Rightarrow>
     StreamCallback list \<times> bool" where
  "readLoop parse [] decoder buffer =
     (let tail = trim (buffer @ decodeEnd decoder)
      in if tail \<noteq> [] then processSSEEvent parse tail else ([], False))"
| "readLoop parse (val # vals) decoder buffer =
     (case decode val decoder of (decoder', text) \<Rightarrow>
        (case processBuffer parse (buffer @ text) of (calls, threw, buffer') \<Rightarrow>
           if threw then (calls, True)
           else (case readLoop parse vals decoder' buffer' of
                   (calls', threw') \<Rightarrow> (calls @ calls', threw'))))"

definition sendChatMessageStream_decode ::
  "(jsstring \<Rightarrow> json option) \<Rightarrow> nat list list \<Rightarrow> StreamCallback list \<times> bool" where
  "sendChatMessageStream_decode parse chunks = readLoop parse chunks newTextDecoder []"

text \<open>
  An error callback may only be the last callback of a run, and the run throws exactly
  when it has one.
\<close>

definition isOnError :: "StreamCallback \<Rightarrow> bool" where
  "isOnError c = (case c of OnError m \<Rightarrow> True | _ \<Rightarrow> False)"

definition errorLast :: "StreamCallback list \<times> bool \<Rightarrow> bool" where
  "errorLast = (\<lambda>(calls, threw).
     if threw then calls \<noteq> [] \<and> isOnError (last calls)
                   \<and> list_all (\<lambda>c. \<not> isOnError c) (butlast calls)
     else list_all (\<lambda>c. \<not> isOnError c) calls)"


section \<open>Example data\<close>

text \<open>
  A session in the \<open>verdict\<close> state with thread id \<open>t1\<close>; the same session with an
  error left by an earlier operation; the turn \<open>why?\<close> sent at clock 1000 through a
  callback whose render saw no turn in flight, after its
  \<open>chat_start\<close> for message \<open>m1\<close>, and after the deltas \<open>Be\<close> and \<open>cause\<close>.
\<close>

definition exampleSession :: HookState where
  "exampleSession =
     initialState\<lparr>state := Verdict, showSplitView := True, threadIdRef := Some (js ''t1'')\<rparr>"

definition staleErrorSession :: HookState where
  "staleErrorSession = exampleSession\<lparr>error := Some (js ''boom'')\<rparr>"

definition exampleTurnBegun :: HookState where
  "exampleTurnBegun = projr (sendChatMessage_begin False (js ''why?'') 1000 exampleSession)"

definition exampleTurnStarted :: HookState where
  "exampleTurnStarted =
     fst (dispatchAll [(1001, ChatStart (js ''m1'') 5)] (exampleTurnBegun, False))"

definition exampleTurnStreaming :: HookState where
  "exampleTurnStreaming =
     fst (dispatchAll
            [(1002, ChatDelta (js ''m1'') (js ''Be'')),
             (1003, ChatDelta (js ''m1'') (js ''cause''))] (exampleTurnStarted, False))"

text \<open>
  Bytes of an ASCII literal, and \<open>JSON.parse\<close> restricted to string literals without
  escapes (it is \<open>None\<close> on every other text), for the examples of the decode loop.
\<close>

definition ascii :: "string \<Rightarrow> nat list" where
  "ascii s = map of_char s"

definition parseStringLiteral :: "jsstring \<Rightarrow> json option" where
  "parseStringLiteral s =
     (case s of
        [] \<Rightarrow> None
      | q # rest \<Rightarrow>
          if q = 34 \<and> rest \<noteq> [] \<and> last rest = 34
             \<and> list_all (\<lambda>c. c \<noteq> 34 \<and> c \<noteq> 92 \<and> 32 \<le> c) (butlast rest)
          then Some (JStr (butlast rest)) else None)"

section \<open>Evaluation of the examples\<close>

lemmas string_defs = js_def ascii_def trim_def trimStart_def trimEnd_def isWhiteSpace_def

lemmas hook_defs = initialState_def exampleSession_def staleErrorSession_def noThreadId_def
  closeEventSource_def closeChatStream_def reset_def errorMessageOr_def
  sendChatMessage_begin_def dispatchAll_def dispatch_def onStart_def onDelta_def
  onComplete_def onError_def catchBlock_def sendChatMessage_settle_def sendChatMessage_def
  turnStarts_def turnFinalized_def turnCancelled_def Let_def

lemma exampleTurnBegun_eq:
  "exampleTurnBegun =
     exampleSession\<lparr>error := None,
       chatMessages := [\<lparr> chat_id = js ''chat-1000-user'', role = User,
                          content = js ''why?'', timestamp = 1000 \<rparr>],
       isChatLoading := True, isChatInFlight := True, chatAbortControllerRef := Some ()\<rparr>"
  by (simp add: exampleTurnBegun_def hook_defs string_defs decimal.simps)

lemma exampleTurnBegun_begin:
  "sendChatMessage_begin False (js ''why?'') 1000 exampleSession = Inr exampleTurnBegun"
  by (simp add: exampleTurnBegun_def hook_defs string_defs)

lemma exampleTurnStarted_eq:
  "exampleTurnStarted = exampleTurnBegun\<lparr>activeChatMessageIdRef := Some (js ''m1'')\<rparr>"
  by (simp add: exampleTurnStarted_def hook_defs)

lemma exampleTurnStreaming_eq:
  "exampleTurnStreaming =
     exampleTurnStarted\<lparr>isChatLoading := False,
       chatMessages := [\<lparr> chat_id = js ''chat-1000-user'', role = User,
                          content = js ''why?'', timestamp = 1000 \<rparr>,
                        \<lparr> chat_id = js ''m1'', role = Assistant,
                          content = js ''Because'', timestamp = 1002 \<rparr>]\<rparr>"
  by (simp add: exampleTurnStreaming_def exampleTurnStarted_eq exampleTurnBegun_eq hook_defs
      string_defs)

section \<open>Progress log\<close>

lemma seen_stays_seen:
  "list_ex (\<lambda>l. log_id l = i) (thinkingLogs s) \<Longrightarrow>
   list_ex (\<lambda>l. log_id l = i) (thinkingLogs (onThinkingLog ev s))"
  by (simp add: onThinkingLog_def Let_def)

lemma seen_after_delivery:
  "list_ex (\<lambda>l. log_id l = log_id ev) (thinkingLogs (onThinkingLog ev s))"
  by (simp add: onThinkingLog_def Let_def)

lemma seen_stays_seen_fold:
  "list_ex (\<lambda>l. log_id l = i) (thinkingLogs s) \<Longrightarrow>
   list_ex (\<lambda>l. log_id l = i) (thinkingLogs (fold onThinkingLog evs s))"
  by (induction evs arbitrary: s) (simp_all add: seen_stays_seen)

lemma seen_is_noop:
  "list_ex (\<lambda>l. log_id l = log_id ev) (thinkingLogs s) \<Longrightarrow> onThinkingLog ev s = s"
  by (simp add: onThinkingLog_def Let_def)

text \<open>
  C2. Delivering a \<open>thinking_log\<close> event a second time changes nothing: at once, and
  also after any other events, and also when the redelivered event has the same id but
  other fields. An event whose id is already in the log leaves the state as it is; an
  event with a new id is appended at the end of the log.
\<close>

theorem thinking_log_redelivery_is_noop:
  "onThinkingLog ev (onThinkingLog ev s) = onThinkingLog ev s
   \<and> (log_id ev' = log_id ev \<longrightarrow>
        onThinkingLog ev' (fold onThinkingLog evs (onThinkingLog ev s))
          = fold onThinkingLog evs (onThinkingLog ev s))
   \<and> (if list_ex (\<lambda>l. log_id l = log_id ev) (thinkingLogs s)
      then onThinkingLog ev s = s
      else onThinkingLog ev s = s\<lparr>thinkingLogs := thinkingLogs s @ [ev]\<rparr>)"
proof (intro conjI impI)
  show "onThinkingLog ev (onThinkingLog ev s) = onThinkingLog ev s"
    by (rule seen_is_noop) (rule seen_after_delivery)
next
  assume same: "log_id ev' = log_id ev"
  have "list_ex (\<lambda>l. log_id l = log_id ev')
          (thinkingLogs (fold onThinkingLog evs (onThinkingLog ev s)))"
    unfolding same by (rule seen_stays_seen_fold) (rule seen_after_delivery)
  then show "onThinkingLog ev' (fold onThinkingLog evs (onThinkingLog ev s))
               = fold onThinkingLog evs (onThinkingLog ev s)"
    by (rule seen_is_noop)
next
  show "if list_ex (\<lambda>l. log_id l = log_id ev) (thinkingLogs s)
        then onThinkingLog ev s = s
        else onThinkingLog ev s = s\<lparr>thinkingLogs := thinkingLogs s @ [ev]\<rparr>"
    by (simp add: onThinkingLog_def Let_def)
qed

theorem thinking_log_redelivery_witness:
  "thinkingLogs
     (onThinkingLog
        \<lparr> log_id = js ''log-1'', agent = js ''budget'', message = js ''again'',
          log_timestamp = 3, status = StatusComplete \<rparr>
        (fold onThinkingLog
           [\<lparr> log_id = js ''log-2'', agent = js ''legal'', message = js ''reading'',
              log_timestamp = 2, status = StatusActive \<rparr>]
           (onThinkingLog
              \<lparr> log_id = js ''log-1'', agent = js ''budget'', message = js ''start'',
                log_timestamp = 1, status = StatusActive \<rparr> initialState)))
   = [\<lparr> log_id = js ''log-1'', agent = js ''budget'', message = js ''start'',
        log_timestamp = 1, status = StatusActive \<rparr>,
      \<lparr> log_id = js ''log-2'', agent = js ''legal'', message = js ''reading'',
        log_timestamp = 2, status = StatusActive \<rparr>]"
  using thinking_log_redelivery_is_noop
    [of "\<lparr> log_id = js ''log-1'', agent = js ''budget'', message = js ''start'',
           log_timestamp = 1, status = StatusActive \<rparr>"
        initialState
        "\<lparr> log_id = js ''log-1'', agent = js ''budget'', message = js ''again'',
           log_timestamp = 3, status = StatusComplete \<rparr>"
        "[\<lparr> log_id = js ''log-2'', agent = js ''legal'', message = js ''reading'',
            log_timestamp = 2, status = StatusActive \<rparr>]"]
  by (simp add: onThinkingLog_def initialState_def js_def)

section \<open>Chat callbacks\<close>

lemma map_finalize_ids:
  "map chat_id (map (\<lambda>m. if chat_id m = i then m\<lparr>content := r, timestamp := t\<rparr> else m) xs)
     = map chat_id xs"
  by (induction xs) simp_all

lemma map_finalize_roles:
  "map role (map (\<lambda>m. if chat_id m = i then m\<lparr>content := r, timestamp := t\<rparr> else m) xs)
     = map role xs"
  by (induction xs) simp_all

lemma map_finalize_ex:
  "list_ex (\<lambda>m. chat_id m = i)
     (map (\<lambda>m. if chat_id m = i then m\<lparr>content := r, timestamp := t\<rparr> else m) xs)
     = list_ex (\<lambda>m. chat_id m = i) xs"
  by (induction xs) simp_all

lemma map_finalize_all:
  "list_all (\<lambda>m. chat_id m = i \<longrightarrow> content m = r \<and> timestamp m = t)
     (map (\<lambda>m. if chat_id m = i then m\<lparr>content := r, timestamp := t\<rparr> else m) xs)"
  by (induction xs) simp_all

lemma map_finalize_others:
  "filter (\<lambda>m. chat_id m \<noteq> i)
     (map (\<lambda>m. if chat_id m = i then m\<lparr>content := r, timestamp := t\<rparr> else m) xs)
     = filter (\<lambda>m. chat_id m \<noteq> i) xs"
  by (induction xs) simp_all

lemma absent_filter:
  "\<not> list_ex (\<lambda>m. chat_id m = i) xs \<Longrightarrow> filter (\<lambda>m. chat_id m \<noteq> i) xs = xs"
  by (induction xs) simp_all

lemma absent_all:
  "\<not> list_ex (\<lambda>m. chat_id m = i) xs \<Longrightarrow>
   list_all (\<lambda>m. chat_id m = i \<longrightarrow> content m = r \<and> timestamp m = t) xs"
  by (induction xs) simp_all

text \<open>
  C5. When \<open>chat_complete\<close> carries the active message id, afterwards every transcript
  entry with that id has the final response text as its content, whatever the deltas
  had accumulated, and the time stamp of the event; such an entry exists; the other
  entries are as before, and an entry that existed keeps its place, id and role; the
  active id is cleared, the turn is no longer in flight or loading, the turn is marked
  finished, and \<open>error\<close> is not touched.
\<close>

theorem chat_complete_is_authoritative:
  assumes "activeChatMessageIdRef s = Some message_id"
  shows "case onComplete message_id response ts (s, streamFinished) of
           (s', streamFinished') \<Rightarrow>
             list_all (\<lambda>m. chat_id m = message_id \<longrightarrow> content m = response \<and> timestamp m = ts)
               (chatMessages s')
           \<and> list_ex (\<lambda>m. chat_id m = message_id) (chatMessages s')
           \<and> filter (\<lambda>m. chat_id m \<noteq> message_id) (chatMessages s')
               = filter (\<lambda>m. chat_id m \<noteq> message_id) (chatMessages s)
           \<and> (list_ex (\<lambda>m. chat_id m = message_id) (chatMessages s) \<longrightarrow>
                 map chat_id (chatMessages s') = map chat_id (chatMessages s)
               \<and> map role (chatMessages s') = map role (chatMessages s))
           \<and> activeChatMessageIdRef s' = None
           \<and> \<not> isChatInFlight s' \<and> \<not> isChatLoading s'
           \<and> error s' = error s
           \<and> streamFinished'"
proof (cases "list_ex (\<lambda>m. chat_id m = message_id) (chatMessages s)")
  case True
  with assms show ?thesis
    by (simp add: onComplete_def Let_def map_finalize_all map_finalize_others
        map_finalize_ids map_finalize_roles map_finalize_ex del: map_map)
next
  case False
  with assms show ?thesis
    by (simp add: onComplete_def Let_def absent_filter absent_all)
qed

theorem chat_complete_is_authoritative_witness:
  "activeChatMessageIdRef exampleTurnStreaming = Some (js ''m1'')
   \<and> map content (chatMessages exampleTurnStreaming) = [js ''why?'', js ''Because'']
   \<and> chatMessages (fst (onComplete (js ''m1'') (js ''Because of X'') 77
                          (exampleTurnStreaming, False)))
       = [\<lparr> chat_id = js ''chat-1000-user'', role = User, content = js ''why?'',
            timestamp = 1000 \<rparr>,
          \<lparr> chat_id = js ''m1'', role = Assistant, content = js ''Because of X'',
            timestamp = 77 \<rparr>]
   \<and> error (fst (onComplete (js ''m1'') (js ''Because of X'') 77
                   (exampleTurnStreaming, False))) = None
   \<and> \<not> isChatInFlight (fst (onComplete (js ''m1'') (js ''Because of X'') 77
                              (exampleTurnStreaming, False)))"
proof -
  have active: "activeChatMessageIdRef exampleTurnStreaming = Some (js ''m1'')"
    by (simp add: exampleTurnStreaming_eq exampleTurnStarted_eq)
  have entries: "chatMessages (fst (onComplete (js ''m1'') (js ''Because of X'') 77
                          (exampleTurnStreaming, False)))
       = [\<lparr> chat_id = js ''chat-1000-user'', role = User, content = js ''why?'',
            timestamp = 1000 \<rparr>,
          \<lparr> chat_id = js ''m1'', role = Assistant, content = js ''Because of X'',
            timestamp = 77 \<rparr>]"
    by (simp add: exampleTurnStreaming_eq exampleTurnStarted_eq onComplete_def Let_def
        string_defs)
  have before: "map content (chatMessages exampleTurnStreaming) = [js ''why?'', js ''Because'']"
    by (simp add: exampleTurnStreaming_eq)
  have err: "error exampleTurnStreaming = None"
    by (simp add: exampleTurnStreaming_eq exampleTurnStarted_eq exampleTurnBegun_eq)
  from chat_complete_is_authoritative [OF active, of "js ''Because of X''" 77 False]
  have "error (fst (onComplete (js ''m1'') (js ''Because of X'') 77
                   (exampleTurnStreaming, False))) = error exampleTurnStreaming
        \<and> \<not> isChatInFlight (fst (onComplete (js ''m1'') (js ''Because of X'') 77
                              (exampleTurnStreaming, False)))"
    by (simp split: prod.splits)
  with active before entries err show ?thesis by simp
qed

text \<open>
  C6. A \<open>chat_delta\<close> whose message id is not the active one is dropped: the state of the
  hook, and with it the transcript and \<open>error\<close>, stays as it was. After
  \<open>closeChatStream\<close> or \<open>reset\<close> no id is active, so every late delta is dropped.
\<close>

theorem stale_delta_is_discarded:
  "(activeChatMessageIdRef s \<noteq> Some message_id \<longrightarrow>
      onDelta message_id delta now (s, streamFinished) = (s, streamFinished))
   \<and> onDelta message_id delta now (closeChatStream s, streamFinished)
        = (closeChatStream s, streamFinished)
   \<and> onDelta message_id delta now (reset s, streamFinished) = (reset s, streamFinished)"
  by (simp add: onDelta_def closeChatStream_def reset_def Let_def)

theorem stale_delta_is_discarded_witness:
  "activeChatMessageIdRef exampleTurnStarted = Some (js ''m1'')
   \<and> activeChatMessageIdRef (closeChatStream exampleTurnStarted) = None
   \<and> onDelta (js ''m1'') (js ''late'') 1005 (closeChatStream exampleTurnStarted, False)
        = (closeChatStream exampleTurnStarted, False)
   \<and> onDelta (js ''m0'') (js ''late'') 1005 (exampleTurnStarted, False)
        = (exampleTurnStarted, False)"
proof -
  have active: "activeChatMessageIdRef exampleTurnStarted = Some (js ''m1'')"
    by (simp add: exampleTurnStarted_eq)
  have other: "activeChatMessageIdRef exampleTurnStarted \<noteq> Some (js ''m0'')"
    by (simp add: exampleTurnStarted_eq js_def)
  have cleared: "activeChatMessageIdRef (closeChatStream exampleTurnStarted) = None"
    by (simp add: closeChatStream_def Let_def)
  from stale_delta_is_discarded [of exampleTurnStarted "js ''m0''" "js ''late''" 1005 False]
    other
  have a: "onDelta (js ''m0'') (js ''late'') 1005 (exampleTurnStarted, False)
             = (exampleTurnStarted, False)"
    by simp
  from stale_delta_is_discarded [of exampleTurnStarted "js ''m1''" "js ''late''" 1005 False]
  have b: "onDelta (js ''m1'') (js ''late'') 1005 (closeChatStream exampleTurnStarted, False)
        = (closeChatStream exampleTurnStarted, False)"
    by simp
  from active cleared a b show ?thesis by simp
qed

lemma map_append_ids:
  "map chat_id (map (\<lambda>m. if chat_id m = i then m\<lparr>content := content m @ d\<rparr> else m) xs)
     = map chat_id xs"
  by (induction xs) simp_all

lemma map_append_roles:
  "map role (map (\<lambda>m. if chat_id m = i then m\<lparr>content := content m @ d\<rparr> else m) xs)
     = map role xs"
  by (induction xs) simp_all

lemma map_append_timestamps:
  "map timestamp (map (\<lambda>m. if chat_id m = i then m\<lparr>content := content m @ d\<rparr> else m) xs)
     = map timestamp xs"
  by (induction xs) simp_all

lemma map_append_contents:
  "map content (map (\<lambda>m. if chat_id m = i then m\<lparr>content := content m @ d\<rparr> else m) xs)
     = map (\<lambda>m. if chat_id m = i then content m @ d else content m) xs"
  by (induction xs) simp_all

lemma absent_after_append:
  "list_ex (\<lambda>m. chat_id m = i) (xs @ [x]) = (list_ex (\<lambda>m. chat_id m = i) xs \<or> chat_id x = i)"
  by (induction xs) auto

text \<open>
  C7, as the code has it. Let a \<open>chat_delta\<close> carry the active message id. When no
  transcript entry has that id, an entry is created exactly when the delta has a
  character that is not white space (\<open>delta.trim()\<close> is not empty): then one assistant
  entry with the whole delta as content is appended, and otherwise the state is left as
  it is. When an entry has that id, the delta is appended to the content of the entries
  with that id, and ids, roles, time stamps and order stay.
\<close>

theorem first_delta_creates_entry_unless_blank:
  assumes "activeChatMessageIdRef s = Some message_id"
  shows "case onDelta message_id delta now (s, streamFinished) of
           (s', streamFinished') \<Rightarrow>
             (if list_ex (\<lambda>m. chat_id m = message_id) (chatMessages s)
              then map content (chatMessages s')
                     = map (\<lambda>m. if chat_id m = message_id then content m @ delta
                                else content m) (chatMessages s)
                 \<and> map chat_id (chatMessages s') = map chat_id (chatMessages s)
                 \<and> map role (chatMessages s') = map role (chatMessages s)
                 \<and> map timestamp (chatMessages s') = map timestamp (chatMessages s)
              else (list_ex (\<lambda>m. chat_id m = message_id) (chatMessages s')
                      = (trim delta \<noteq> []))
                 \<and> (if trim delta = [] then s' = s
                    else chatMessages s' = chatMessages s @
                           [\<lparr> chat_id = message_id, role = Assistant, content = delta,
                              timestamp = of_nat now \<rparr>]))"
  using assms
  by (simp add: onDelta_def Let_def map_append_ids map_append_roles map_append_timestamps
      map_append_contents absent_after_append del: map_map)

theorem first_delta_creates_entry_unless_blank_witness:
  "activeChatMessageIdRef exampleTurnStarted = Some (js ''m1'')
   \<and> chatMessages (fst (onDelta (js ''m1'') (js ''Be'') 1002 (exampleTurnStarted, False)))
       = chatMessages exampleTurnStarted @
           [\<lparr> chat_id = js ''m1'', role = Assistant, content = js ''Be'', timestamp = 1002 \<rparr>]"
proof -
  have active: "activeChatMessageIdRef exampleTurnStarted = Some (js ''m1'')"
    by (simp add: exampleTurnStarted_eq)
  have absent: "\<not> list_ex (\<lambda>m. chat_id m = js ''m1'') (chatMessages exampleTurnStarted)"
    by (simp add: exampleTurnStarted_eq exampleTurnBegun_eq js_def)
  have nonblank: "trim (js ''Be'') \<noteq> []"
    by (simp add: string_defs)
  from first_delta_creates_entry_unless_blank [OF active, of "js ''Be''" 1002 False]
    absent nonblank active
  show ?thesis by (simp split: prod.splits)
qed

text \<open>
  The delta of one space is not empty, and as the first delta of a message it creates
  no entry.
\<close>

theorem blank_first_delta_counterexample:
  "activeChatMessageIdRef exampleTurnStarted = Some (js ''m1'')
   \<and> chatMessages exampleTurnStarted
       = [\<lparr> chat_id = js ''chat-1000-user'', role = User, content = js ''why?'',
            timestamp = 1000 \<rparr>]
   \<and> js '' '' \<noteq> []
   \<and> chatMessages (fst (onDelta (js ''m1'') (js '' '') 1002 (exampleTurnStarted, False)))
       = chatMessages exampleTurnStarted"
  by (simp add: exampleTurnStarted_eq exampleTurnBegun_eq onDelta_def Let_def string_defs)

text \<open>
  C10. When \<open>chat_complete\<close> carries the active message id and no transcript entry has
  that id, one assistant entry with the final response text and the time stamp of the
  event is appended, and the turn is finished.
\<close>

theorem chat_complete_without_entry_appends:
  assumes "activeChatMessageIdRef s = Some message_id"
    and "\<not> list_ex (\<lambda>chatMessage. chat_id chatMessage = message_id) (chatMessages s)"
  shows "onComplete message_id response ts (s, streamFinished) =
           (s\<lparr>chatMessages := chatMessages s @
                 [\<lparr> chat_id = message_id, role = Assistant, content = response,
                    timestamp = ts \<rparr>],
               activeChatMessageIdRef := None, isChatLoading := False,
               isChatInFlight := False\<rparr>, True)"
  using assms by (simp add: onComplete_def Let_def)

theorem chat_complete_without_entry_appends_witness:
  "activeChatMessageIdRef exampleTurnStarted = Some (js ''m1'')
   \<and> chatMessages (fst (onComplete (js ''m1'') (js ''Because of X'') 77
                          (exampleTurnStarted, False)))
       = [\<lparr> chat_id = js ''chat-1000-user'', role = User, content = js ''why?'',
            timestamp = 1000 \<rparr>,
          \<lparr> chat_id = js ''m1'', role = Assistant, content = js ''Because of X'',
            timestamp = 77 \<rparr>]"
proof -
  have active: "activeChatMessageIdRef exampleTurnStarted = Some (js ''m1'')"
    by (simp add: exampleTurnStarted_eq)
  have absent: "\<not> list_ex (\<lambda>m. chat_id m = js ''m1'') (chatMessages exampleTurnStarted)"
    by (simp add: exampleTurnStarted_eq exampleTurnBegun_eq js_def)
  have entries: "chatMessages exampleTurnStarted
       = [\<lparr> chat_id = js ''chat-1000-user'', role = User, content = js ''why?'',
            timestamp = 1000 \<rparr>]"
    by (simp add: exampleTurnStarted_eq exampleTurnBegun_eq)
  from chat_complete_without_entry_appends [OF active absent, of "js ''Because of X''" 77 False]
    active entries
  show ?thesis by simp
qed

section \<open>Report operations\<close>

text \<open>
  C9. With a thread id that is set, \<open>generateReport\<close> calls \<open>submitReview\<close> in the
  \<open>generating\<close> state, and when the call fails the message is stored in \<open>error\<close>
  and the state is \<open>verdict\<close>; nothing else but the split view flag, set before the
  call, differs from the state at the invocation. With no thread id the operation
  stores its message in \<open>error\<close>, changes nothing else and calls nothing. An empty
  thread id counts as none.
\<close>

theorem generateReport_failure_recovery:
  "(threadIdRef s = Some t \<and> t \<noteq> [] \<longrightarrow>
      generateReport_begin s = Inr (s\<lparr>state := Generating, showSplitView := True\<rparr>)
    \<and> generateReport (Rejected err) s =
        s\<lparr>state := Verdict, showSplitView := True,
          error := Some (errorMessageOr (js ''Failed to generate report'') err)\<rparr>)
   \<and> (threadIdRef s = Some [] \<longrightarrow>
        generateReport_begin s = Inl (s\<lparr>error := Some (js ''No analysis session found'')\<rparr>))
   \<and> (threadIdRef s = None \<longrightarrow>
        generateReport_begin s = Inl (s\<lparr>error := Some (js ''No analysis session found'')\<rparr>)
      \<and> generateReport r s = s\<lparr>error := Some (js ''No analysis session found'')\<rparr>)"
  by (simp add: generateReport_def generateReport_begin_def generateReport_settle_def
      noThreadId_def)

theorem generateReport_failure_recovery_witness:
  "threadIdRef exampleSession = Some (js ''t1'') \<and> js ''t1'' \<noteq> []
   \<and> state (generateReport (Rejected (ErrorObject (js ''HTTP 500''))) exampleSession) = Verdict
   \<and> error (generateReport (Rejected (ErrorObject (js ''HTTP 500''))) exampleSession)
       = Some (js ''HTTP 500'')
   \<and> threadIdRef initialState = None
   \<and> generateReport (Rejected (ErrorObject (js ''HTTP 500''))) initialState
       = initialState\<lparr>error := Some (js ''No analysis session found'')\<rparr>"
proof -
  have thread: "threadIdRef exampleSession = Some (js ''t1'') \<and> js ''t1'' \<noteq> []"
    by (simp add: exampleSession_def js_def)
  have none: "threadIdRef initialState = None"
    by (simp add: initialState_def)
  from generateReport_failure_recovery
         [of exampleSession "js ''t1''" "ErrorObject (js ''HTTP 500'')"] thread
  have a: "generateReport (Rejected (ErrorObject (js ''HTTP 500''))) exampleSession =
        exampleSession\<lparr>state := Verdict, showSplitView := True,
          error := Some (errorMessageOr (js ''Failed to generate report'')
                          (ErrorObject (js ''HTTP 500'')))\<rparr>"
    by simp
  from generateReport_failure_recovery
         [of initialState "[]" NotAnError "Rejected (ErrorObject (js ''HTTP 500''))"] none
  have b: "generateReport (Rejected (ErrorObject (js ''HTTP 500''))) initialState
       = initialState\<lparr>error := Some (js ''No analysis session found'')\<rparr>"
    by simp
  from thread none a b show ?thesis
    by (simp add: errorMessageOr_def)
qed

section \<open>Clearing \<open>error\<close>\<close>

text \<open>
  \<open>uploadFiles\<close> and \<open>sendChatMessage\<close> call \<open>setError(null)\<close> before their request:
  in the state in which the request is made, \<open>error\<close> is \<open>null\<close>.
\<close>

lemma uploadFiles_clears_error:
  "uploadFiles_begin files now s = Inr s1 \<Longrightarrow> error s1 = None"
  by (auto simp: uploadFiles_begin_def Let_def split: list.splits)

lemma sendChatMessage_clears_error:
  "sendChatMessage_begin inFlightAtRender msg now s = Inr s1 \<Longrightarrow> error s1 = None"
  by (auto simp: sendChatMessage_begin_def Let_def split: if_splits)

text \<open>
  \<open>generateReport\<close> and \<open>declineReport\<close> have no such call: \<open>error\<close> is the same in the
  state in which \<open>submitReview\<close> is called, and after a call that succeeds.
\<close>

lemma review_operations_keep_error:
  "generateReport_begin s = Inr s1 \<Longrightarrow>
     error s1 = error s \<and> error (generateReport (Fulfilled response) s) = error s"
  "declineReport_begin s = Inr s2 \<Longrightarrow>
     error s2 = error s \<and> error (declineReport (Fulfilled response) s) = error s"
  by (auto simp: generateReport_def generateReport_begin_def generateReport_settle_def
      declineReport_def declineReport_begin_def declineReport_settle_def Let_def
      split: if_splits option.splits)

text \<open>
  C8 at a session whose \<open>error\<close> is \<open>boom\<close>: the upload and the chat turn make their
  request with \<open>error\<close> cleared; \<open>generateReport\<close> and \<open>declineReport\<close> call
  \<open>submitReview\<close> with \<open>boom\<close> still in \<open>error\<close>, and it is still there after the call
  has succeeded.
\<close>

theorem review_operations_keep_stale_error:
  "error staleErrorSession = Some (js ''boom'') \<and> \<not> noThreadId staleErrorSession
   \<and> map_sum error error (uploadFiles_begin [js ''a.pdf''] 1000 staleErrorSession) = Inr None
   \<and> map_sum error error (sendChatMessage_begin False (js ''why?'') 1000 staleErrorSession)
       = Inr None
   \<and> map_sum error error (generateReport_begin staleErrorSession) = Inr (Some (js ''boom''))
   \<and> map_sum error error (declineReport_begin staleErrorSession) = Inr (Some (js ''boom''))
   \<and> error (generateReport (Fulfilled \<lparr> review_status = js ''ok'', gamma_link = None \<rparr>)
              staleErrorSession) = Some (js ''boom'')
   \<and> error (declineReport (Fulfilled \<lparr> review_status = js ''ok'', gamma_link = None \<rparr>)
              staleErrorSession) = Some (js ''boom'')"
  by (simp add: hook_defs uploadFiles_begin_def generateReport_def generateReport_begin_def
      generateReport_settle_def declineReport_def declineReport_begin_def
      declineReport_settle_def js_def)

section \<open>A second chat turn while one is in flight\<close>

lemma dispatch_finished_stays: "snd (dispatch c (s, True))"
  by (cases c) (auto simp: dispatch_def onStart_def onDelta_def onComplete_def Let_def
      split: ChatCallback.splits)

lemma dispatchAll_finished_stays: "snd (dispatchAll cbs (s, True))"
proof (induction cbs arbitrary: s)
  case Nil
  show ?case by (simp add: dispatchAll_def)
next
  case (Cons c cbs)
  obtain s' where "dispatch c (s, True) = (s', True)"
    using dispatch_finished_stays [of c s] by (cases "dispatch c (s, True)") auto
  with Cons show ?case by (simp add: dispatchAll_def)
qed

text \<open>What a callback leaves alone while the turn is not finished.\<close>

lemma dispatch_unfinished:
  assumes "dispatch c (s, False) = (s', False)"
  shows "isChatInFlight s' = isChatInFlight s \<and> threadIdRef s' = threadIdRef s"
  using assms
  by (cases c) (auto simp: dispatch_def onStart_def onDelta_def onComplete_def Let_def
      split: ChatCallback.splits if_splits)

lemma dispatchAll_unfinished:
  assumes "dispatchAll cbs (s, False) = (s', False)"
  shows "isChatInFlight s' = isChatInFlight s \<and> threadIdRef s' = threadIdRef s"
  using assms
proof (induction cbs arbitrary: s)
  case Nil
  then show ?case by (simp add: dispatchAll_def)
next
  case (Cons c cbs)
  obtain s1 sf1 where step: "dispatch c (s, False) = (s1, sf1)"
    by (cases "dispatch c (s, False)")
  with Cons.prems have rest: "dispatchAll cbs (s1, sf1) = (s', False)"
    by (simp add: dispatchAll_def)
  have "\<not> sf1"
  proof
    assume sf1
    with rest dispatchAll_finished_stays [of cbs s1] show False by simp
  qed
  with step rest Cons.IH [of s1] dispatch_unfinished [of c s s1] show ?case by simp
qed

text \<open>
  Let a turn have begun, and let the stream have delivered any callbacks that did not
  finish it. Then the turn is in flight. A \<open>sendChatMessage\<close> built by a render of
  that state returns at once and leaves the state as it is. A \<open>sendChatMessage\<close> built
  by a render that saw no turn in flight passes the guard: it appends its user entry
  and opens a second request.
\<close>

lemma in_flight_after_begin:
  assumes "sendChatMessage_begin seen msg1 now1 s = Inr s1"
    and "dispatchAll cbs (s1, False) = (s2, False)"
  shows "isChatInFlight s2 \<and> \<not> noThreadId s2"
proof -
  from assms(1) have "isChatInFlight s1 \<and> \<not> noThreadId s1"
    by (auto simp: sendChatMessage_begin_def noThreadId_def Let_def split: if_splits)
  with dispatchAll_unfinished [OF assms(2)] show ?thesis
    by (simp add: noThreadId_def)
qed

lemma rebuilt_callback_rejects_while_in_flight:
  assumes "sendChatMessage_begin seen msg1 now1 s = Inr s1"
    and "dispatchAll cbs (s1, False) = (s2, False)"
  shows "sendChatMessage_begin (isChatInFlight s2) msg2 now2 s2 = Inl s2
         \<and> sendChatMessage (isChatInFlight s2) msg2 now2 cbs2 ending2 s2 = s2"
  using in_flight_after_begin [OF assms]
  by (simp add: sendChatMessage_def sendChatMessage_begin_def)

lemma stale_callback_accepts_while_in_flight:
  assumes "sendChatMessage_begin seen msg1 now1 s = Inr s1"
    and "dispatchAll cbs (s1, False) = (s2, False)"
  shows "sendChatMessage_begin False msg2 now2 s2 =
           Inr (s2\<lparr>error := None,
                  chatMessages := chatMessages s2 @
                    [\<lparr> chat_id = js ''chat-'' @ decimal now2 @ js ''-user'', role = User,
                       content = msg2, timestamp = of_nat now2 \<rparr>],
                  isChatLoading := True, isChatInFlight := True,
                  chatAbortControllerRef := Some ()\<rparr>)"
  using in_flight_after_begin [OF assms]
  by (simp add: sendChatMessage_begin_def Let_def)

text \<open>
  C4 at two invocations of one callback. The callback was built by a render that saw no
  turn in flight. Its first invocation begins the turn \<open>why?\<close>, and \<open>chat_start\<close>
  arrives: the turn is in flight, with \<open>m1\<close> active. Its second invocation is not
  rejected: it appends a second user entry and opens a second request. The callback of
  a render that saw the turn in flight is rejected at the same state.
\<close>

theorem stale_callback_opens_second_turn:
  "sendChatMessage_begin False (js ''why?'') 1000 exampleSession = Inr exampleTurnBegun
   \<and> isChatInFlight exampleTurnStarted
   \<and> activeChatMessageIdRef exampleTurnStarted = Some (js ''m1'')
   \<and> sendChatMessage_begin False (js ''and then?'') 1003 exampleTurnStarted
       = Inr (exampleTurnStarted
                \<lparr>error := None,
                 chatMessages :=
                   [\<lparr> chat_id = js ''chat-1000-user'', role = User, content = js ''why?'',
                      timestamp = 1000 \<rparr>,
                    \<lparr> chat_id = js ''chat-1003-user'', role = User,
                      content = js ''and then?'', timestamp = 1003 \<rparr>],
                 isChatLoading := True, isChatInFlight := True,
                 chatAbortControllerRef := Some ()\<rparr>)
   \<and> sendChatMessage_begin True (js ''and then?'') 1003 exampleTurnStarted
       = Inl exampleTurnStarted"
  by (simp add: exampleTurnBegun_begin exampleTurnStarted_eq exampleTurnBegun_eq hook_defs
      string_defs decimal.simps)

section \<open>How a chat turn ends\<close>

lemma dispatch_keeps_error:
  "error (fst (dispatch c p)) = error (fst p)"
  by (cases c; cases p)
     (auto simp: dispatch_def onStart_def onDelta_def onComplete_def Let_def
      split: ChatCallback.splits)

lemma dispatchAll_keeps_error:
  "error (fst (dispatchAll cbs p)) = error (fst p)"
proof (induction cbs arbitrary: p)
  case Nil
  show ?case by (simp add: dispatchAll_def)
next
  case (Cons c cbs)
  from Cons [of "dispatch c p"] dispatch_keeps_error [of c p]
  show ?case by (simp add: dispatchAll_def)
qed

lemma settle_Resolves:
  "error (sendChatMessage_settle Resolves (s, sf)) = error s
   \<and> (\<not> sf \<longrightarrow> \<not> isChatInFlight (sendChatMessage_settle Resolves (s, sf))
            \<and> activeChatMessageIdRef (sendChatMessage_settle Resolves (s, sf)) = None)"
  by (simp add: sendChatMessage_settle_def)

lemma settle_fails:
  "error (sendChatMessage_settle (ErrorEvent m) (s, sf)) = Some m"
  "error (sendChatMessage_settle (Rejects err) (s, sf))
     = Some (errorMessageOr (js ''Failed to send message'') err)"
  by (simp_all add: sendChatMessage_settle_def catchBlock_def onError_def errorMessageOr_def)

lemma settle_Aborted:
  "error (sendChatMessage_settle (Aborted c) (s, sf)) = (if c = ByReset then None else error s)"
  by (cases c)
     (simp_all add: sendChatMessage_settle_def reset_def closeChatStream_def
        closeEventSource_def Let_def)

text \<open>
  C3, as the code has it. Take a turn that starts and in which, once a
  \<open>chat_complete\<close> has finalized the entry, the stream ends without an error frame, a
  failure or an abort. Then exactly one of four things is observed: the entry is
  finalized and \<open>error\<close> is \<open>null\<close>; or \<open>error\<close> is set and nothing is finalized; or
  the user aborted the turn, with \<open>error\<close> \<open>null\<close> and nothing finalized; or the stream
  ended without \<open>chat_complete\<close> and without an error, and then the turn is closed
  silently: \<open>error\<close> is \<open>null\<close>, nothing is finalized, no id is active and the turn
  is not in flight.
\<close>

theorem turn_ends_in_exactly_one_way:
  assumes "turnStarts inFlightAtRender msg now s"
    and "turnFinalized inFlightAtRender msg now cbs s \<longrightarrow> ending = Resolves"
  shows "let final = sendChatMessage inFlightAtRender msg now cbs ending s;
             finalized = turnFinalized inFlightAtRender msg now cbs s;
             failed = (error final \<noteq> None);
             cancelled = turnCancelled ending;
             silent = (ending = Resolves \<and> \<not> finalized)
         in (finalized \<and> \<not> failed \<and> \<not> cancelled \<and> \<not> silent)
          \<or> (\<not> finalized \<and> failed \<and> \<not> cancelled \<and> \<not> silent)
          \<or> (\<not> finalized \<and> \<not> failed \<and> cancelled \<and> \<not> silent)
          \<or> (\<not> finalized \<and> \<not> failed \<and> \<not> cancelled \<and> silent
              \<and> \<not> isChatInFlight final \<and> activeChatMessageIdRef final = None)"
proof -
  from assms(1) obtain s1 where
    begun: "sendChatMessage_begin inFlightAtRender msg now s = Inr s1"
    by (auto simp: turnStarts_def split: sum.splits)
  obtain s2 sf where ran: "dispatchAll cbs (s1, False) = (s2, sf)"
    by (cases "dispatchAll cbs (s1, False)")
  have clean: "error s2 = None"
    using dispatchAll_keeps_error [of cbs "(s1, False)"] sendChatMessage_clears_error [OF begun]
    by (simp add: ran)
  have fin: "turnFinalized inFlightAtRender msg now cbs s = sf"
    by (simp add: turnFinalized_def begun ran)
  have final: "sendChatMessage inFlightAtRender msg now cbs how s
                 = sendChatMessage_settle how (s2, sf)" for how
    by (simp add: sendChatMessage_def begun ran)
  show ?thesis
  proof (cases ending)
    case Resolves
    with settle_Resolves [of s2 sf] clean show ?thesis
      by (auto simp: Let_def fin final turnCancelled_def)
  next
    case (ErrorEvent m)
    with assms(2) have "\<not> sf" by (simp add: fin)
    with ErrorEvent settle_fails(1) [of m s2 sf] show ?thesis
      by (simp add: Let_def fin final turnCancelled_def)
  next
    case (Rejects err)
    with assms(2) have "\<not> sf" by (simp add: fin)
    with Rejects settle_fails(2) [of err s2 sf] show ?thesis
      by (simp add: Let_def fin final turnCancelled_def)
  next
    case (Aborted c)
    with assms(2) have "\<not> sf" by (simp add: fin)
    with Aborted settle_Aborted [of c s2 sf] clean show ?thesis
      by (simp add: Let_def fin final turnCancelled_def)
  qed
qed

theorem turn_ends_in_exactly_one_way_witness:
  "turnStarts False (js ''why?'') 1000 exampleSession
   \<and> turnFinalized False (js ''why?'') 1000
        [(1001, ChatStart (js ''m1'') 5), (1002, ChatDelta (js ''m1'') (js ''Be'')),
         (1003, ChatComplete (js ''m1'') (js ''Because of X'') 77)] exampleSession
   \<and> error (sendChatMessage False (js ''why?'') 1000
        [(1001, ChatStart (js ''m1'') 5), (1002, ChatDelta (js ''m1'') (js ''Be'')),
         (1003, ChatComplete (js ''m1'') (js ''Because of X'') 77)] Resolves exampleSession)
       = None
   \<and> \<not> turnCancelled Resolves"
proof -
  have starts: "turnStarts False (js ''why?'') 1000 exampleSession"
    by (simp add: turnStarts_def exampleTurnBegun_begin)
  have fin: "turnFinalized False (js ''why?'') 1000
        [(1001, ChatStart (js ''m1'') 5), (1002, ChatDelta (js ''m1'') (js ''Be'')),
         (1003, ChatComplete (js ''m1'') (js ''Because of X'') 77)] exampleSession"
    unfolding turnFinalized_def exampleTurnBegun_begin
    by (simp add: exampleTurnBegun_eq dispatchAll_def dispatch_def onStart_def onDelta_def
        onComplete_def Let_def string_defs)
  from turn_ends_in_exactly_one_way [OF starts, of
        "[(1001, ChatStart (js ''m1'') 5), (1002, ChatDelta (js ''m1'') (js ''Be'')),
          (1003, ChatComplete (js ''m1'') (js ''Because of X'') 77)]" Resolves] fin starts
  show ?thesis
    by (simp add: Let_def turnCancelled_def)
qed

text \<open>
  The claim as the specification states it fails on a stream that ends after
  \<open>chat_start\<close> without a terminal frame: the turn starts, no entry is finalized,
  \<open>error\<close> stays \<open>null\<close> and nobody cancelled.
\<close>

theorem silent_stream_end_counterexample:
  "turnStarts False (js ''why?'') 1000 exampleSession
   \<and> \<not> turnFinalized False (js ''why?'') 1000 [(1001, ChatStart (js ''m1'') 5)] exampleSession
   \<and> error (sendChatMessage False (js ''why?'') 1000 [(1001, ChatStart (js ''m1'') 5)] Resolves
              exampleSession) = None
   \<and> \<not> turnCancelled Resolves"
  by (simp add: hook_defs string_defs)

text \<open>
  An error frame after \<open>chat_complete\<close> in the same stream: the entry is finalized and
  \<open>error\<close> is set as well. The theorem above leaves such streams out.
\<close>

lemma error_frame_after_complete_example:
  "turnFinalized False (js ''why?'') 1000
        [(1001, ChatStart (js ''m1'') 5),
         (1002, ChatComplete (js ''m1'') (js ''Because of X'') 77)] exampleSession
   \<and> error (sendChatMessage False (js ''why?'') 1000
        [(1001, ChatStart (js ''m1'') 5),
         (1002, ChatComplete (js ''m1'') (js ''Because of X'') 77)]
        (ErrorEvent (js ''late failure'')) exampleSession)
       = Some (js ''late failure'')"
  by (simp add: hook_defs string_defs)

section \<open>The decode loop and the chunks\<close>

lemma indexOfBoundary_bound: "indexOfBoundary buffer = Some i \<Longrightarrow> i + 2 \<le> length buffer"
  by (induction buffer arbitrary: i rule: indexOfBoundary.induct) (auto split: if_splits)

lemma processBuffer_None:
  "indexOfBoundary buffer = None \<Longrightarrow> processBuffer parse buffer = ([], False, buffer)"
  by (subst processBuffer.simps) simp

lemma processBuffer_Some:
  "indexOfBoundary buffer = Some i \<Longrightarrow>
   processBuffer parse buffer =
     (let rawEvent = trim (take i buffer);
          buffer' = drop (i + 2) buffer;
          frame = (if rawEvent \<noteq> [] then processSSEEvent parse rawEvent else ([], False))
      in if snd frame then (fst frame, True, buffer')
         else (case processBuffer parse buffer' of
                 (calls, threw, rest) \<Rightarrow> (fst frame @ calls, threw, rest)))"
  by (subst processBuffer.simps) simp

lemma handleBytes_append:
  "handleBytes (xs @ ys) d =
     (case handleBytes xs d of (d1, out1) \<Rightarrow>
        (case handleBytes ys d1 of (d2, out2) \<Rightarrow> (d2, out1 @ out2)))"
  by (induction xs arbitrary: d) (simp_all split: prod.splits)

lemma serialize_append:
  "serialize (xs @ ys) seen =
     (case serialize xs seen of (seen1, out1) \<Rightarrow>
        (case serialize ys seen1 of (seen2, out2) \<Rightarrow> (seen2, out1 @ out2)))"
  by (induction xs arbitrary: seen) (simp_all split: prod.splits)

lemma decode_append:
  "decode (xs @ ys) d =
     (case decode xs d of (d1, text1) \<Rightarrow>
        (case decode ys d1 of (d2, text2) \<Rightarrow> (d2, text1 @ text2)))"
  by (simp add: decode_def handleBytes_append serialize_append split: prod.splits)

lemma decode_Nil: "decode [] d = (d, [])"
  by (simp add: decode_def)

lemma indexOfBoundary_append:
  "indexOfBoundary buffer = Some i \<Longrightarrow> indexOfBoundary (buffer @ extra) = Some i"
  by (induction buffer arbitrary: i rule: indexOfBoundary.induct) (auto split: if_splits)

lemma processBuffer_append:
  "processBuffer parse (buffer @ extra) =
     (case processBuffer parse buffer of (calls, threw, rest) \<Rightarrow>
        if threw then (calls, True, rest @ extra)
        else (case processBuffer parse (rest @ extra) of
                (calls', threw', rest') \<Rightarrow> (calls @ calls', threw', rest')))"
proof (induction parse buffer rule: processBuffer.induct)
  case (1 parse buffer)
  show ?case
  proof (cases "indexOfBoundary buffer")
    case None
    then have "processBuffer parse buffer = ([], False, buffer)"
      by (simp add: processBuffer.simps)
    then show ?thesis by (simp split: prod.splits)
  next
    case (Some i)
    then have bound: "i + 2 \<le> length buffer"
      by (rule indexOfBoundary_bound)
    have idx: "indexOfBoundary (buffer @ extra) = Some i"
      using Some by (rule indexOfBoundary_append)
    define frame where "frame =
      (if trim (take i buffer) \<noteq> [] then processSSEEvent parse (trim (take i buffer))
       else ([], False))"
    have whole: "processBuffer parse (buffer @ extra) =
        (if snd frame then (fst frame, True, drop (i + 2) buffer @ extra)
         else (case processBuffer parse (drop (i + 2) buffer @ extra) of
                 (calls, threw, rest) \<Rightarrow> (fst frame @ calls, threw, rest)))"
      using idx bound
      by (subst processBuffer.simps) (simp add: frame_def Let_def)
    have part: "processBuffer parse buffer =
        (if snd frame then (fst frame, True, drop (i + 2) buffer)
         else (case processBuffer parse (drop (i + 2) buffer) of
                 (calls, threw, rest) \<Rightarrow> (fst frame @ calls, threw, rest)))"
      using Some
      by (subst processBuffer.simps) (simp add: frame_def Let_def)
    show ?thesis
    proof (cases "snd frame")
      case True
      with whole part show ?thesis by simp
    next
      case False
      have IH: "processBuffer parse (drop (i + 2) buffer @ extra) =
         (case processBuffer parse (drop (i + 2) buffer) of (calls, threw, rest) \<Rightarrow>
            if threw then (calls, True, rest @ extra)
            else (case processBuffer parse (rest @ extra) of
                    (calls', threw', rest') \<Rightarrow> (calls @ calls', threw', rest')))"
        using "1.IH" [OF Some refl refl refl] False
        by (simp add: frame_def)
      from False whole part IH show ?thesis
        by (simp split: prod.splits)
    qed
  qed
qed


lemma readLoop_merge:
  "readLoop parse (c1 # c2 # cs) decoder buffer = readLoop parse ((c1 @ c2) # cs) decoder buffer"
proof -
  obtain d1 text1 where dec1: "decode c1 decoder = (d1, text1)"
    by (cases "decode c1 decoder")
  obtain d2 text2 where dec2: "decode c2 d1 = (d2, text2)"
    by (cases "decode c2 d1")
  obtain calls1 threw1 rest1 where
    buf1: "processBuffer parse (buffer @ text1) = (calls1, threw1, rest1)"
    by (cases "processBuffer parse (buffer @ text1)")
  have dec: "decode (c1 @ c2) decoder = (d2, text1 @ text2)"
    by (simp add: decode_append dec1 dec2)
  have buf: "processBuffer parse (buffer @ text1 @ text2) =
      (if threw1 then (calls1, True, rest1 @ text2)
       else (case processBuffer parse (rest1 @ text2) of
               (calls', threw', rest') \<Rightarrow> (calls1 @ calls', threw', rest')))"
    using processBuffer_append [of parse "buffer @ text1" text2] by (simp add: buf1)
  show ?thesis
    by (simp add: dec dec1 dec2 buf buf1 split: prod.splits)
qed


lemma readLoop_concat:
  "readLoop parse (c # cs) decoder buffer = readLoop parse [concat (c # cs)] decoder buffer"
proof (induction cs arbitrary: c)
  case Nil
  have "concat [c] = c" by simp
  then show ?case by (simp only:)
next
  case (Cons c2 cs)
  have "readLoop parse (c # c2 # cs) decoder buffer
          = readLoop parse ((c @ c2) # cs) decoder buffer"
    by (rule readLoop_merge)
  also have "\<dots> = readLoop parse [concat ((c @ c2) # cs)] decoder buffer"
    by (rule Cons.IH)
  also have "concat ((c @ c2) # cs) = concat (c # c2 # cs)"
    by simp
  finally show ?case .
qed


lemma processBuffer_Nil: "processBuffer parse [] = ([], False, [])"
  by (subst processBuffer.simps) simp


lemma readLoop_no_chunk:
  "readLoop parse [[]] decoder [] = readLoop parse [] decoder []"
  by (simp add: decode_Nil processBuffer_Nil)



text \<open>
  C1. For every sequence of chunks that \<open>reader.read()\<close> delivers, the decode loop of
  \<open>sendChatMessageStream\<close> calls the same callbacks with the same payloads in the same
  order, and ends the same way (it throws an \<open>APIError\<close> or it does not), as on the one
  chunk that holds all the bytes. The chunks are arbitrary byte sequences, so a chunk
  may end inside a UTF-8 sequence, inside a line or inside the blank line between two
  frames; the text left after the last blank line is processed once, after the last
  chunk.
\<close>

theorem chunk_boundary_invariance:
  "sendChatMessageStream_decode parse chunks =
     sendChatMessageStream_decode parse [concat chunks]"
proof (cases chunks)
  case Nil
  have "readLoop parse [] newTextDecoder [] = readLoop parse [[]] newTextDecoder []"
    by (rule readLoop_no_chunk [symmetric])
  with Nil show ?thesis
    by (simp only: sendChatMessageStream_decode_def concat.simps)
next
  case (Cons c cs)
  show ?thesis
    unfolding sendChatMessageStream_decode_def Cons by (rule readLoop_concat)
qed

lemmas decode_defs = newTextDecoder_def decode_def decodeEnd_def handleByte_def
  leadByte_def utf16_def startsWith_def processLine_def processSSEEvent_def
  parseStringLiteral_def errorOf_def truthy_def sendChatMessageStream_decode_def Let_def

text \<open>
  Two frames, the second without a blank line after it. The chunks split the two bytes
  of U+00E9 and the blank line between the frames.
\<close>

theorem chunk_boundary_invariance_witness:
  "sendChatMessageStream_decode parseStringLiteral
     [ascii ''event:chat_delta\<newline>data:'' @ [34, 195],
      [169, 34, 10],
      [],
      10 # ascii ''event:chat_complete\<newline>data:'' @ [34] @ ascii ''ok'' @ [34]]
   = ([OnDelta (JStr [233]), OnComplete (JStr (js ''ok''))], False)"
proof -
  have "sendChatMessageStream_decode parseStringLiteral
     [concat [ascii ''event:chat_delta\<newline>data:'' @ [34, 195],
      [169, 34, 10],
      [],
      10 # ascii ''event:chat_complete\<newline>data:'' @ [34] @ ascii ''ok'' @ [34]]]
   = ([OnDelta (JStr [233]), OnComplete (JStr (js ''ok''))], False)"
    by (simp add: decode_defs string_defs processBuffer_None processBuffer_Some)
  then show ?thesis
    by (simp only: chunk_boundary_invariance
          [of parseStringLiteral
              "[ascii ''event:chat_delta\<newline>data:'' @ [34, 195], [169, 34, 10], [],
                10 # ascii ''event:chat_complete\<newline>data:'' @ [34] @ ascii ''ok'' @ [34]]"])
qed

section \<open>Error callbacks of the decode loop\<close>

text \<open>
  The decode loop calls \<open>onError\<close> exactly when it throws, and as its last callback.
  This is why a turn of the hook sees \<open>chat_start\<close>, \<open>chat_delta\<close> and
  \<open>chat_complete\<close> callbacks first and an error callback only as the way the
  stream ends.
\<close>

lemma errorLast_frame:
  "errorLast (processSSEEvent parse rawEvent)"
  by (simp add: processSSEEvent_def errorLast_def isOnError_def split: prod.splits option.splits)

lemma errorLast_append:
  "errorLast (calls, False) \<Longrightarrow> errorLast (calls', threw) \<Longrightarrow> errorLast (calls @ calls', threw)"
  by (cases calls') (auto simp: errorLast_def butlast_append)

lemma errorLast_Nil: "errorLast ([], False)"
  by (simp add: errorLast_def)

lemma errorLast_processBuffer:
  "processBuffer parse buffer = (calls, threw, rest) \<Longrightarrow> errorLast (calls, threw)"
proof (induction parse buffer arbitrary: calls threw rest rule: processBuffer.induct)
  case (1 parse buffer)
  show ?case
  proof (cases "indexOfBoundary buffer")
    case None
    with "1.prems" show ?thesis
      by (simp add: processBuffer_None errorLast_Nil)
  next
    case (Some i)
    define frame where "frame =
      (if trim (take i buffer) \<noteq> [] then processSSEEvent parse (trim (take i buffer))
       else ([], False))"
    have frame_ok: "errorLast frame"
      by (simp add: frame_def errorLast_frame errorLast_Nil)
    show ?thesis
    proof (cases "snd frame")
      case True
      with "1.prems" Some have "calls = fst frame" "threw"
        by (simp_all add: processBuffer_Some frame_def Let_def)
      with frame_ok True show ?thesis
        by (cases frame) simp
    next
      case False
      obtain calls' threw' rest' where
        rec: "processBuffer parse (drop (i + 2) buffer) = (calls', threw', rest')"
        by (cases "processBuffer parse (drop (i + 2) buffer)")
      from False have nothrow: "\<not> snd (if trim (take i buffer) \<noteq> []
          then processSSEEvent parse (trim (take i buffer)) else ([], False))"
        by (simp add: frame_def)
      have "errorLast (calls', threw')"
        using "1.IH" [OF Some refl refl refl nothrow rec] .
      moreover from "1.prems" Some False rec have "calls = fst frame @ calls'" "threw = threw'"
        by (simp_all add: processBuffer_Some frame_def Let_def)
      moreover from frame_ok False have "errorLast (fst frame, False)"
        by (cases frame) simp
      ultimately show ?thesis
        by (simp add: errorLast_append)
    qed
  qed
qed

lemma errorLast_readLoop:
  "errorLast (readLoop parse chunks decoder buffer)"
proof (induction chunks arbitrary: decoder buffer)
  case Nil
  show ?case
    by (simp add: Let_def errorLast_frame errorLast_Nil)
next
  case (Cons c chunks)
  obtain d1 text1 where dec: "decode c decoder = (d1, text1)"
    by (cases "decode c decoder")
  obtain calls threw rest where
    buf: "processBuffer parse (buffer @ text1) = (calls, threw, rest)"
    by (cases "processBuffer parse (buffer @ text1)")
  have first: "errorLast (calls, threw)"
    using buf by (rule errorLast_processBuffer)
  show ?case
  proof (cases threw)
    case True
    with first dec buf show ?thesis by simp
  next
    case False
    obtain calls' threw' where rest: "readLoop parse chunks d1 rest = (calls', threw')"
      by (cases "readLoop parse chunks d1 rest")
    with Cons.IH [of d1 rest] have "errorLast (calls', threw')" by simp
    with first False have "errorLast (calls @ calls', threw')"
      by (simp add: errorLast_append)
    with False dec buf rest show ?thesis by simp
  qed
qed

lemma decode_error_is_last:
  "errorLast (sendChatMessageStream_decode parse chunks)"
  by (simp add: sendChatMessageStream_decode_def errorLast_readLoop)

end
